theory Spec2Isabelle
  imports Complex_Main "HOL-Library.Product_Lexorder" "HOL-Library.Log_Nat"
begin

section \<open>Data model of \<^verbatim>\<open>lazy_loader.py\<close>\<close>

text \<open>
  A \<^verbatim>\<open>datetime.date\<close> is the triple (year, month, day); Python compares dates
  lexicographically on that triple, which is the order of products used here.
\<close>

type_synonym date = "nat \<times> nat \<times> nat"

text \<open>Bounds are \<^verbatim>\<open>(left, bottom, right, top)\<close>. A finite Python float is the real
  number it denotes; the arithmetic on floats rounds (see \<open>to_double\<close> below).\<close>

type_synonym bounds = "real \<times> real \<times> real \<times> real"

text \<open>An affine transform is the six coefficients \<^verbatim>\<open>(a, b, c, d, e, f)\<close>;
  its origin is \<^verbatim>\<open>(c, f)\<close>.\<close>

type_synonym affine = "real \<times> real \<times> real \<times> real \<times> real \<times> real"

datatype error =
    RuntimeError string
  | ValueError
  | ZeroDivisionError
  | AttributeError
  | IndexError
  | OverflowError
  | OSError
  | RasterioIOError
  | GDALError

type_synonym 'a result = "error + 'a"

record LazyLoaderRefer =
  crs :: string
  transform :: affine
  shape :: "int \<times> int"
  bounds :: bounds
  res :: "real \<times> real"

text \<open>
  The fields of \<^verbatim>\<open>LazyLoader\<close>. The dict \<^verbatim>\<open>files\<close> is an association list in
  insertion order (the order in which \<^verbatim>\<open>files.values()\<close> iterates).
  \<^verbatim>\<open>sorted_files\<close> holds what \<^verbatim>\<open>sorted(self.files)\<close> returns: the sorted keys.
\<close>

record LazyLoader =
  limit :: "int \<times> int"
  reference :: "LazyLoaderRefer option"
  sig_init :: bool
  files :: "(date \<times> string) list"
  sorted_files :: "date list"
  vrt_files :: "string list"
  blocks :: "(int \<times> int) list"

datatype Window = Window int int int int

datatype slice = Slice "int option" "int option" "int option"

subsection \<open>The collaborators\<close>

text \<open>A directory entry of \<^verbatim>\<open>os.scandir\<close>.\<close>

record entry =
  name :: string
  path :: string
  is_file :: bool

text \<open>A dataset handle of \<^verbatim>\<open>rasterio.open\<close>: its projection, bounds and resolution,
  and its windowed read.\<close>

record ('c, 'px) src =
  src_crs :: 'c
  src_bounds :: bounds
  src_res :: "real \<times> real"
  src_read :: "Window \<Rightarrow> 'px"

text \<open>
  Everything outside the loader is a parameter of the model: the directory scan
  (\<open>None\<close> when the directory cannot be read), the date parser (\<open>None\<close> when the name
  does not match the format), the raster library (\<open>None\<close> when a file cannot be opened),
  the coordinate transform of bounds, the name of a projection
  (\<^verbatim>\<open>crs if isinstance(crs, str) else crs.to_string()\<close>; \<open>None\<close> when the file has no
  projection and \<^verbatim>\<open>crs\<close> is \<^verbatim>\<open>None\<close>), the temporary directory, and whether
  \<^verbatim>\<open>gdal.Open\<close> and \<^verbatim>\<open>gdal.Warp\<close> build the view of a source for a reference.
\<close>

record ('c, 'px) env =
  scandir :: "string \<Rightarrow> entry list option"
  strptime :: "string \<Rightarrow> string \<Rightarrow> date option"
  rasterio_open :: "string \<Rightarrow> ('c, 'px) src option"
  transform_bounds :: "'c \<Rightarrow> 'c \<Rightarrow> bounds \<Rightarrow> bounds"
  to_string :: "'c \<Rightarrow> string option"
  gettempdir :: string
  gdal_Warp :: "string \<Rightarrow> LazyLoaderRefer \<Rightarrow> bool"

section \<open>Python primitives\<close>

text \<open>\<^verbatim>\<open>d[k] = v\<close> on a dict: an existing key keeps its position, a new key goes last.\<close>

fun setitem :: "'k \<Rightarrow> 'v \<Rightarrow> ('k \<times> 'v) list \<Rightarrow> ('k \<times> 'v) list" where
  "setitem k v [] = [(k, v)]"
| "setitem k v ((k', v') # kvs) =
     (if k' = k then (k, v) # kvs else (k', v') # setitem k v kvs)"

definition keys :: "('k \<times> 'v) list \<Rightarrow> 'k list" where
  "keys d = map fst d"

definition values_of :: "('k \<times> 'v) list \<Rightarrow> 'v list" where
  "values_of d = map snd d"

definition endswith :: "string \<Rightarrow> string \<Rightarrow> bool" where
  "endswith s suf = (length suf \<le> length s \<and> drop (length s - length suf) s = suf)"

text \<open>\<^verbatim>\<open>os.path.basename\<close> and the two-argument \<^verbatim>\<open>os.path.join\<close> of posixpath.\<close>

definition basename :: "string \<Rightarrow> string" where
  "basename p = rev (takeWhile (\<lambda>c. c \<noteq> CHR ''/'') (rev p))"

definition join :: "string \<Rightarrow> string \<Rightarrow> string" where
  "join a b =
     (if b \<noteq> [] \<and> hd b = CHR ''/'' then b
      else if a = [] \<or> last a = CHR ''/'' then a @ b
      else a @ ''/'' @ b)"

text \<open>\<^verbatim>\<open>max(xs, key=k)\<close>: the first element whose key is maximal; \<^verbatim>\<open>ValueError\<close> on
  an empty list. The first argument of the loop is the best element so far.\<close>

fun max_loop :: "('a \<Rightarrow> nat) \<Rightarrow> 'a \<Rightarrow> 'a list \<Rightarrow> 'a" where
  "max_loop k best [] = best"
| "max_loop k best (x # xs) = (if k best < k x then max_loop k x xs else max_loop k best xs)"

definition max_key :: "('a \<Rightarrow> nat) \<Rightarrow> 'a list \<Rightarrow> 'a result" where
  "max_key k xs = (case xs of [] \<Rightarrow> Inl ValueError | x # xs' \<Rightarrow> Inr (max_loop k x xs'))"

text \<open>\<^verbatim>\<open>min(xs)\<close> and \<^verbatim>\<open>max(xs)\<close> on floats.\<close>

definition py_min :: "real list \<Rightarrow> real result" where
  "py_min xs = (case xs of [] \<Rightarrow> Inl ValueError | x # xs' \<Rightarrow> Inr (fold min xs' x))"

definition py_max :: "real list \<Rightarrow> real result" where
  "py_max xs = (case xs of [] \<Rightarrow> Inl ValueError | x # xs' \<Rightarrow> Inr (fold max xs' x))"

text \<open>
  Float arithmetic. A Python float is an IEEE 754 binary64 number: the result of an
  operation is the exact result rounded to the nearest double, ties to the even
  significand, and an infinity when the rounded magnitude reaches \<open>2 ^ 1024\<close>.
  \<open>to_double x\<close> is that rounding; \<open>None\<close> stands for an infinity. The doubles around
  \<open>x\<close> are the multiples of \<open>2 ^ (e - 52)\<close>, where \<open>2 ^ e \<le> \<bar>x\<bar> < 2 ^ (e + 1)\<close> and \<open>e\<close> is
  at least \<open>- 1022\<close> (below that the doubles are subnormal, with fixed spacing).
  \<open>float_exponent x\<close> computes that \<open>e\<close>, the floor of the binary logarithm of \<open>\<bar>x\<bar>\<close>, from
  the number of bits of an integer next to \<open>\<bar>x\<bar>\<close> or to its inverse.
\<close>

definition pow2 :: "int \<Rightarrow> real" where
  "pow2 k = (if 0 \<le> k then 2 ^ nat k else 1 / 2 ^ nat (- k))"

definition float_exponent :: "real \<Rightarrow> int" where
  "float_exponent x =
     (let a = \<bar>x\<bar> in if 1 \<le> a then bitlen \<lfloor>a\<rfloor> - 1 else - bitlen (\<lceil>1 / a\<rceil> - 1))"

text \<open>\<^verbatim>\<open>round(x)\<close> of a float: the nearest integer, a tie going to the even one.\<close>

definition py_round :: "real \<Rightarrow> int" where
  "py_round x =
     (let f = \<lfloor>x\<rfloor>; d = x - of_int f
      in if d < 1 / 2 then f else if 1 / 2 < d then f + 1 else if even f then f else f + 1)"

definition to_double :: "real \<Rightarrow> real option" where
  "to_double x =
     (if x = 0 then Some 0
      else (let e = max (float_exponent x) (- 1022);
                u = pow2 (e - 52);
                r = u * of_int (py_round (x / u))
            in if 2 ^ 1024 \<le> \<bar>r\<bar> then None else Some r))"

text \<open>\<^verbatim>\<open>a - b\<close> on finite floats; no exception, the result may be an infinity.\<close>

definition float_sub :: "real \<Rightarrow> real \<Rightarrow> real option" where
  "float_sub a b = to_double (a - b)"

text \<open>\<^verbatim>\<open>a / b\<close> with a finite divisor: \<^verbatim>\<open>ZeroDivisionError\<close> on a zero divisor; an
  infinite dividend gives an infinity.\<close>

definition truediv :: "real option \<Rightarrow> real \<Rightarrow> real option result" where
  "truediv a b =
     (if b = 0 then Inl ZeroDivisionError
      else Inr (case a of None \<Rightarrow> None | Some x \<Rightarrow> to_double (x / b)))"

text \<open>\<^verbatim>\<open>int(x)\<close> of a float truncates towards zero, and raises \<^verbatim>\<open>OverflowError\<close> on an
  infinity.\<close>

definition trunc_zero :: "real \<Rightarrow> int" where
  "trunc_zero x = (if 0 \<le> x then \<lfloor>x\<rfloor> else \<lceil>x\<rceil>)"

definition py_int :: "real option \<Rightarrow> int result" where
  "py_int x = (case x of None \<Rightarrow> Inl OverflowError | Some v \<Rightarrow> Inr (trunc_zero v))"

text \<open>\<^verbatim>\<open>a // b\<close> on ints is floor division and raises on a zero divisor.\<close>

definition floordiv :: "int \<Rightarrow> int \<Rightarrow> int result" where
  "floordiv a b = (if b = 0 then Inl ZeroDivisionError else Inr (a div b))"

text \<open>\<^verbatim>\<open>range(n)\<close>: empty when \<open>n \<le> 0\<close>.\<close>

definition py_range :: "int \<Rightarrow> int list" where
  "py_range n = [0..n - 1]"

text \<open>\<^verbatim>\<open>rasterio.transform.from_origin(west, north, xsize, ysize)\<close> is
  \<^verbatim>\<open>Affine(xsize, 0, west, 0, -ysize, north)\<close>.\<close>

definition from_origin :: "real \<Rightarrow> real \<Rightarrow> real \<Rightarrow> real \<Rightarrow> affine" where
  "from_origin west north xsize ysize = (xsize, 0, west, 0, - ysize, north)"

definition origin :: "affine \<Rightarrow> real \<times> real" where
  "origin t = (case t of (a, b, c, d, e, f) \<Rightarrow> (c, f))"

section \<open>The loader\<close>

text \<open>\<^verbatim>\<open>LazyLoader.__init__\<close>.\<close>

definition new_LazyLoader :: "int \<times> int \<Rightarrow> LazyLoader" where
  "new_LazyLoader lmt =
     \<lparr>limit = lmt, reference = None, sig_init = False, files = [],
      sorted_files = [], vrt_files = [], blocks = []\<rparr>"

subsection \<open>\<^verbatim>\<open>addFilesFromPath\<close>\<close>

text \<open>The loop over the directory entries. An exception of \<^verbatim>\<open>strptime\<close> leaves the
  entries stored so far in the dict.\<close>

fun add_entries ::
  "('c, 'px) env \<Rightarrow> string \<Rightarrow> entry list \<Rightarrow> LazyLoader \<Rightarrow> unit result \<times> LazyLoader" where
  "add_entries E fmt [] l = (Inr (), l)"
| "add_entries E fmt (e # es) l =
     (if is_file e \<and> endswith (name e) ''.tif'' then
        (case strptime E (name e) fmt of
           None \<Rightarrow> (Inl ValueError, l)
         | Some d \<Rightarrow> add_entries E fmt es (l\<lparr>files := setitem d (path e) (files l)\<rparr>))
      else add_entries E fmt es l)"

definition addFilesFromPath ::
  "('c, 'px) env \<Rightarrow> string \<Rightarrow> slice \<Rightarrow> string \<Rightarrow> LazyLoader \<Rightarrow> unit result \<times> LazyLoader" where
  "addFilesFromPath E p sl fmt l =
     (case scandir E p of
        None \<Rightarrow> (Inl OSError, l)
      | Some es \<Rightarrow>
          (case add_entries E fmt es l of
             (Inl e, l') \<Rightarrow> (Inl e, l')
           | (Inr u, l') \<Rightarrow> (Inr (), l'\<lparr>sig_init := False\<rparr>)))"

subsection \<open>\<^verbatim>\<open>setReference\<close>\<close>

definition setReference :: "LazyLoaderRefer \<Rightarrow> LazyLoader \<Rightarrow> LazyLoader" where
  "setReference r l = l\<lparr>reference := Some r\<rparr>"

subsection \<open>\<^verbatim>\<open>getReferenceFromFiles\<close>\<close>

text \<open>The first loop: the projection of every file, in the order of \<^verbatim>\<open>files.values()\<close>.\<close>

fun collect_crs :: "('c, 'px) env \<Rightarrow> string list \<Rightarrow> 'c list result" where
  "collect_crs E [] = Inr []"
| "collect_crs E (p # ps) =
     (case rasterio_open E p of
        None \<Rightarrow> Inl RasterioIOError
      | Some s \<Rightarrow>
          (case collect_crs E ps of Inl e \<Rightarrow> Inl e | Inr cs \<Rightarrow> Inr (src_crs s # cs)))"

text \<open>\<^verbatim>\<open>target_crs = max(crs_list, key=crs_list.count)\<close>.\<close>

definition target_crs_of :: "'c list \<Rightarrow> 'c result" where
  "target_crs_of crs_list = max_key (count_list crs_list) crs_list"

text \<open>The second loop: the bounds of every file, in the target projection.\<close>

fun collect_bounds :: "('c, 'px) env \<Rightarrow> 'c \<Rightarrow> string list \<Rightarrow> bounds list result" where
  "collect_bounds E target [] = Inr []"
| "collect_bounds E target (p # ps) =
     (case rasterio_open E p of
        None \<Rightarrow> Inl RasterioIOError
      | Some s \<Rightarrow>
          (let transformed_bounds =
                 (if src_crs s \<noteq> target
                  then transform_bounds E (src_crs s) target (src_bounds s)
                  else src_bounds s)
           in (case collect_bounds E target ps of
                 Inl e \<Rightarrow> Inl e
               | Inr bs \<Rightarrow> Inr (transformed_bounds # bs))))"

text \<open>The union of the bounds: \<^verbatim>\<open>zip(*target_bounds)\<close>, then the four extrema.\<close>

definition union_bounds :: "bounds list \<Rightarrow> bounds result" where
  "union_bounds bs =
     (case py_min (map (\<lambda>(l, b, r, t). l) bs) of
        Inl e \<Rightarrow> Inl e
      | Inr target_left \<Rightarrow>
     (case py_min (map (\<lambda>(l, b, r, t). b) bs) of
        Inl e \<Rightarrow> Inl e
      | Inr target_bottom \<Rightarrow>
     (case py_max (map (\<lambda>(l, b, r, t). r) bs) of
        Inl e \<Rightarrow> Inl e
      | Inr target_right \<Rightarrow>
     (case py_max (map (\<lambda>(l, b, r, t). t) bs) of
        Inl e \<Rightarrow> Inl e
      | Inr target_top \<Rightarrow> Inr (target_left, target_bottom, target_right, target_top)))))"

text \<open>Transform and shape from the union bounds and the resolution:
  \<^verbatim>\<open>width = int((target_right - target_left) / res[0])\<close>, then the height likewise.\<close>

definition grid_of :: "bounds \<Rightarrow> real \<times> real \<Rightarrow> (affine \<times> (int \<times> int)) result" where
  "grid_of b rs =
     (case b of (target_left, target_bottom, target_right, target_top) \<Rightarrow>
        (let t = from_origin target_left target_top (fst rs) (snd rs) in
         (case truediv (float_sub target_right target_left) (fst rs) of
            Inl e \<Rightarrow> Inl e
          | Inr qw \<Rightarrow>
         (case py_int qw of
            Inl e \<Rightarrow> Inl e
          | Inr width \<Rightarrow>
         (case truediv (float_sub target_top target_bottom) (snd rs) of
            Inl e \<Rightarrow> Inl e
          | Inr qh \<Rightarrow>
         (case py_int qh of
            Inl e \<Rightarrow> Inl e
          | Inr height \<Rightarrow> Inr (t, (width, height))))))))"

text \<open>The body of \<^verbatim>\<open>getReferenceFromFiles\<close> up to the two assignments: the target
  projection, the union bounds, the resolution of the representative file
  \<^verbatim>\<open>list(self.files.values())[0]\<close>, the transform and the shape.\<close>

definition resolve ::
  "('c, 'px) env \<Rightarrow> string list \<Rightarrow> ('c \<times> affine \<times> (int \<times> int) \<times> bounds \<times> (real \<times> real)) result" where
  "resolve E paths =
     (case collect_crs E paths of
        Inl e \<Rightarrow> Inl e
      | Inr crs_list \<Rightarrow>
     (case target_crs_of crs_list of
        Inl e \<Rightarrow> Inl e
      | Inr target \<Rightarrow>
     (case collect_bounds E target paths of
        Inl e \<Rightarrow> Inl e
      | Inr target_bounds \<Rightarrow>
     (case union_bounds target_bounds of
        Inl e \<Rightarrow> Inl e
      | Inr b \<Rightarrow>
     (case paths of
        [] \<Rightarrow> Inl IndexError
      | p0 # rest \<Rightarrow>
     (case rasterio_open E p0 of
        None \<Rightarrow> Inl RasterioIOError
      | Some s \<Rightarrow>
     (case grid_of b (src_res s) of
        Inl e \<Rightarrow> Inl e
      | Inr (t, shp) \<Rightarrow> Inr (target, t, shp, b, src_res s))))))))"

text \<open>
  A failure up to there leaves the loader as it was. The flag is cleared first; the name
  of the projection is taken while the new reference is built, so a projection without a
  name raises after the flag is cleared and before the reference is assigned.
\<close>

definition getReferenceFromFiles ::
  "('c, 'px) env \<Rightarrow> LazyLoader \<Rightarrow> unit result \<times> LazyLoader" where
  "getReferenceFromFiles E l =
     (case resolve E (values_of (files l)) of
        Inl e \<Rightarrow> (Inl e, l)
      | Inr (target, t, shp, b, rs) \<Rightarrow>
          (let l1 = l\<lparr>sig_init := False\<rparr> in
           (case to_string E target of
              None \<Rightarrow> (Inl AttributeError, l1)
            | Some c \<Rightarrow>
                (Inr (), l1\<lparr>reference :=
                   Some \<lparr>crs = c, transform = t, shape = shp, bounds = b, res = rs\<rparr>\<rparr>))))"

subsection \<open>\<^verbatim>\<open>init\<close>\<close>

definition vrt_path :: "('c, 'px) env \<Rightarrow> string \<Rightarrow> string" where
  "vrt_path E p = join (gettempdir E) (basename p @ ''.vrt'')"

text \<open>The loop that builds one view per file and appends its path to \<^verbatim>\<open>vrt_files\<close>.\<close>

fun build_vrts ::
  "('c, 'px) env \<Rightarrow> LazyLoaderRefer \<Rightarrow> string list \<Rightarrow> LazyLoader \<Rightarrow> unit result \<times> LazyLoader" where
  "build_vrts E r [] l = (Inr (), l)"
| "build_vrts E r (p # ps) l =
     (if gdal_Warp E p r
      then build_vrts E r ps (l\<lparr>vrt_files := vrt_files l @ [vrt_path E p]\<rparr>)
      else (Inl GDALError, l))"

text \<open>The tile plan: the two block counts and the list comprehension.\<close>

definition compute_blocks :: "int \<times> int \<Rightarrow> int \<times> int \<Rightarrow> (int \<times> int) list result" where
  "compute_blocks shp lmt =
     (case shp of (width, height) \<Rightarrow>
     (case floordiv (width + fst lmt - 1) (fst lmt) of
        Inl e \<Rightarrow> Inl e
      | Inr x_blocks \<Rightarrow>
     (case floordiv (height + snd lmt - 1) (snd lmt) of
        Inl e \<Rightarrow> Inl e
      | Inr y_blocks \<Rightarrow>
          Inr (concat (map (\<lambda>x. map (\<lambda>y. (x, y)) (py_range y_blocks)) (py_range x_blocks))))))"

text \<open>
  \<^verbatim>\<open>init\<close>. The test \<^verbatim>\<open>self.files is None\<close> is never true of a dict, so it has no
  branch here. The flag is assigned once, as the last statement.
\<close>

definition init :: "('c, 'px) env \<Rightarrow> LazyLoader \<Rightarrow> unit result \<times> LazyLoader" where
  "init E l =
     (case reference l of
        None \<Rightarrow> (Inl (RuntimeError ''RSDataLazyLoader requires a reference before init''), l)
      | Some r \<Rightarrow>
          (let l1 = l\<lparr>sorted_files := sort (keys (files l))\<rparr> in
           (case build_vrts E r (values_of (files l1)) l1 of
              (Inl e, l2) \<Rightarrow> (Inl e, l2)
            | (Inr u, l2) \<Rightarrow>
                (case compute_blocks (shape r) (limit l2) of
                   Inl e \<Rightarrow> (Inl e, l2)
                 | Inr bs \<Rightarrow> (Inr (), l2\<lparr>blocks := bs, sig_init := True\<rparr>)))))"

subsection \<open>\<^verbatim>\<open>getWindow\<close>, \<^verbatim>\<open>getBlock\<close> and iteration\<close>

text \<open>\<^verbatim>\<open>rasterio.windows.Window(col_off, row_off, width, height)\<close> validates its width and
  height and raises \<^verbatim>\<open>ValueError\<close> when one is negative.\<close>

definition getWindow :: "LazyLoader \<Rightarrow> int \<times> int \<Rightarrow> Window result" where
  "getWindow l index =
     (case reference l of
        None \<Rightarrow> Inl AttributeError
      | Some r \<Rightarrow>
          (let x_start = fst index * fst (limit l);
               y_start = snd index * snd (limit l);
               x_size = min (fst (limit l)) (fst (shape r) - x_start);
               y_size = min (snd (limit l)) (snd (shape r) - y_start)
           in if x_size < 0 \<or> y_size < 0 then Inl ValueError
              else Inr (Window x_start y_start x_size y_size)))"

text \<open>The loop of \<^verbatim>\<open>getBlock\<close>: open the view, compute the window, read it.\<close>

fun read_series ::
  "('c, 'px) env \<Rightarrow> LazyLoader \<Rightarrow> int \<times> int \<Rightarrow> string list \<Rightarrow> 'px list result" where
  "read_series E l index [] = Inr []"
| "read_series E l index (v # vs) =
     (case rasterio_open E v of
        None \<Rightarrow> Inl RasterioIOError
      | Some s \<Rightarrow>
          (case getWindow l index of
             Inl e \<Rightarrow> Inl e
           | Inr w \<Rightarrow>
               (case read_series E l index vs of
                  Inl e \<Rightarrow> Inl e
                | Inr ds \<Rightarrow> Inr (src_read s w # ds))))"

text \<open>\<^verbatim>\<open>getBlock\<close> returns the stack, one element per view, and the loader after
  the call.\<close>

definition getBlock ::
  "('c, 'px) env \<Rightarrow> LazyLoader \<Rightarrow> int \<times> int \<Rightarrow> 'px list result \<times> LazyLoader" where
  "getBlock E l index =
     (if \<not> sig_init l
      then (Inl (RuntimeError ''RSDataLazyLoader requires init before getBlock''), l)
      else (read_series E l index (vrt_files l), l))"

text \<open>
  The generator \<^verbatim>\<open>__iter__\<close>, run to its end: the stacks it yields, the exception that
  ended it (if one did), and the loader afterwards.
\<close>

fun iter_loop ::
  "('c, 'px) env \<Rightarrow> (int \<times> int) list \<Rightarrow> LazyLoader \<Rightarrow> ('px list list \<times> error option) \<times> LazyLoader" where
  "iter_loop E [] l = (([], None), l)"
| "iter_loop E (b # bs) l =
     (case getBlock E l b of
        (Inl e, l') \<Rightarrow> (([], Some e), l')
      | (Inr a, l') \<Rightarrow>
          (case iter_loop E bs l' of ((as, err), l'') \<Rightarrow> ((a # as, err), l'')))"

definition iter :: "('c, 'px) env \<Rightarrow> LazyLoader \<Rightarrow> ('px list list \<times> error option) \<times> LazyLoader" where
  "iter E l = iter_loop E (blocks l) l"

section \<open>Example inputs\<close>

text \<open>A reference grid of 10 by 10 pixels and a loader with tiles of at most 4 by 4.\<close>

definition example_refer :: LazyLoaderRefer where
  "example_refer =
     \<lparr>crs = ''EPSG:4326'', transform = from_origin 0 10 1 1, shape = (10, 10),
      bounds = (0, 0, 10, 10), res = (1, 1)\<rparr>"

definition example_loader :: LazyLoader where
  "example_loader = setReference example_refer (new_LazyLoader (4, 4))"

definition other_refer :: LazyLoaderRefer where
  "other_refer =
     \<lparr>crs = ''EPSG:3857'', transform = from_origin 0 20 1 1, shape = (20, 20),
      bounds = (0, 0, 20, 20), res = (1, 1)\<rparr>"

text \<open>
  A small world. Every file opens as a raster of 10 by 10 pixels. The files cover
  \<open>(0, 0, 10, 10)\<close> at resolution 1, but for \<^verbatim>\<open>/data/offset.tif\<close>, shifted by 0.75 in both
  directions, and \<^verbatim>\<open>/data/tenth.tif\<close>, which covers \<open>(0, 0, 1, 1)\<close> at the resolution that
  the float \<^verbatim>\<open>0.1\<close> denotes. \<^verbatim>\<open>/data/b.tif\<close> is in another projection than the rest. A read
  returns the name of the file read and the window. The directory \<^verbatim>\<open>/data\<close> lists the
  file of 2 January before the file of 1 January (\<^verbatim>\<open>os.scandir\<close> promises no order).
\<close>

definition example_src :: "string \<Rightarrow> (string, string \<times> Window) src" where
  "example_src p =
     \<lparr>src_crs = (if p = ''/data/b.tif'' then ''EPSG:3857'' else ''EPSG:4326''),
      src_bounds =
        (if p = ''/data/offset.tif'' then (3 / 4, 3 / 4, 43 / 4, 43 / 4)
         else if p = ''/data/tenth.tif'' then (0, 0, 1, 1)
         else (0, 0, 10, 10)),
      src_res =
        (if p = ''/data/tenth.tif''
         then (3602879701896397 / 36028797018963968, 3602879701896397 / 36028797018963968)
         else (1, 1)),
      src_read = (\<lambda>w. (p, w))\<rparr>"

definition example_env :: "(string, string \<times> Window) env" where
  "example_env =
     \<lparr>scandir = (\<lambda>p. if p = ''/data''
         then Some [\<lparr>name = ''20200102.tif'', path = ''/data/20200102.tif'', is_file = True\<rparr>,
                    \<lparr>name = ''20200101.tif'', path = ''/data/20200101.tif'', is_file = True\<rparr>]
         else None),
      strptime = (\<lambda>n f. if n = ''20200102.tif'' then Some (2020, 1, 2)
         else if n = ''20200101.tif'' then Some (2020, 1, 1) else None),
      rasterio_open = (\<lambda>p. Some (example_src p)),
      transform_bounds = (\<lambda>s t b. b),
      to_string = (\<lambda>c. Some c),
      gettempdir = ''/tmp'',
      gdal_Warp = (\<lambda>p r. True)\<rparr>"

text \<open>The same world after the sources have become unreadable for GDAL.\<close>

definition broken_env :: "(string, string \<times> Window) env" where
  "broken_env = example_env\<lparr>gdal_Warp := (\<lambda>p r. False)\<rparr>"

text \<open>The loader after \<^verbatim>\<open>addFilesFromPath('/data', ..., '%Y%m%d.tif')\<close> and
  \<^verbatim>\<open>setReference\<close>, and the same loader after \<^verbatim>\<open>init()\<close>.\<close>

definition cataloged_loader :: LazyLoader where
  "cataloged_loader =
     setReference example_refer
       (snd (addFilesFromPath example_env ''/data'' (Slice None None None) ''%Y%m%d.tif''
          (new_LazyLoader (4, 4))))"

definition ready_loader :: LazyLoader where
  "ready_loader = snd (init example_env cataloged_loader)"

text \<open>Catalogs built by hand: projections A, A, B; projections A, B; a file and the
  shifted file; the file at resolution 0.1.\<close>

definition mode_loader :: LazyLoader where
  "mode_loader = (new_LazyLoader (4, 4))
     \<lparr>files := [((2020, 1, 1), ''/data/a1.tif''), ((2020, 1, 2), ''/data/a2.tif''),
                ((2020, 1, 3), ''/data/b.tif'')]\<rparr>"

definition tie_loader :: LazyLoader where
  "tie_loader = (new_LazyLoader (4, 4))
     \<lparr>files := [((2020, 1, 1), ''/data/a1.tif''), ((2020, 1, 2), ''/data/b.tif'')]\<rparr>"

definition offset_loader :: LazyLoader where
  "offset_loader = (new_LazyLoader (4, 4))
     \<lparr>files := [((2020, 1, 1), ''/data/a1.tif''), ((2020, 1, 2), ''/data/offset.tif'')]\<rparr>"

definition tenth_loader :: LazyLoader where
  "tenth_loader = (new_LazyLoader (4, 4))\<lparr>files := [((2020, 1, 1), ''/data/tenth.tif'')]\<rparr>"

section \<open>Float arithmetic\<close>

lemma pow2_powr: "pow2 k = 2 powr real_of_int k"
  by (simp add: pow2_def powr_real_of_int field_simps)

lemma pow2_pos: "0 < pow2 k"
  by (simp add: pow2_powr)

lemma floor_log2:
  assumes "pow2 e \<le> \<bar>x\<bar>" and "\<bar>x\<bar> < pow2 (e + 1)"
  shows "\<lfloor>log 2 \<bar>x\<bar>\<rfloor> = e"
proof -
  have "0 < \<bar>x\<bar>" using assms(1) pow2_pos[of e] by linarith
  then show ?thesis
    using assms by (simp add: floor_log_eq_powr_iff pow2_powr)
qed

text \<open>The exponent computed is the binary exponent.\<close>

lemma bitlen_real_bounds:
  assumes "0 < n"
  shows "2 ^ nat (bitlen n - 1) \<le> real_of_int n" and "real_of_int n + 1 \<le> 2 ^ nat (bitlen n)"
    and "1 \<le> bitlen n"
proof -
  from bitlen_bounds[OF assms] have b: "2 ^ nat (bitlen n - 1) \<le> n" "n < 2 ^ nat (bitlen n)"
    by simp_all
  have "real_of_int (2 ^ nat (bitlen n - 1)) \<le> real_of_int n"
    using b(1) by (simp only: of_int_le_iff)
  then show "2 ^ nat (bitlen n - 1) \<le> real_of_int n" by simp
  have "n + 1 \<le> 2 ^ nat (bitlen n)" using b(2) by simp
  then have "real_of_int (n + 1) \<le> real_of_int (2 ^ nat (bitlen n))"
    by (simp only: of_int_le_iff)
  then show "real_of_int n + 1 \<le> 2 ^ nat (bitlen n)" by simp
  show "1 \<le> bitlen n"
    using assms bitlen_eq_zero_iff[of n] bitlen_nonneg[of n] by linarith
qed

lemma float_exponent_bounds:
  assumes "x \<noteq> 0"
  shows "pow2 (float_exponent x) \<le> \<bar>x\<bar> \<and> \<bar>x\<bar> < pow2 (float_exponent x + 1)"
proof (cases "1 \<le> \<bar>x\<bar>")
  case True
  let ?n = "\<lfloor>\<bar>x\<bar>\<rfloor>"
  have n: "0 < ?n" using True by simp
  note b = bitlen_real_bounds[OF n]
  have e: "float_exponent x = bitlen ?n - 1" using True by (simp add: float_exponent_def)
  have 1: "pow2 (bitlen ?n - 1) = 2 ^ nat (bitlen ?n - 1)" using b(3) by (simp add: pow2_def)
  have 2: "pow2 (bitlen ?n - 1 + 1) = 2 ^ nat (bitlen ?n)" using b(3) by (simp add: pow2_def)
  have "real_of_int ?n \<le> \<bar>x\<bar>" "\<bar>x\<bar> < real_of_int ?n + 1" by linarith+
  then show ?thesis using b(1,2) by (simp only: e 1 2) linarith
next
  case False
  let ?a = "\<bar>x\<bar>"
  let ?n = "\<lceil>1 / ?a\<rceil> - 1"
  have a: "0 < ?a" "?a < 1" using assms False by simp_all
  then have y: "1 < 1 / ?a" by simp
  then have "2 \<le> \<lceil>1 / ?a\<rceil>" by linarith
  then have n: "0 < ?n" by simp
  note b = bitlen_real_bounds[OF n]
  have ny: "real_of_int ?n < 1 / ?a" "1 / ?a \<le> real_of_int ?n + 1" by linarith+
  have e: "float_exponent x = - bitlen ?n" using False by (simp add: float_exponent_def)
  have 1: "pow2 (- bitlen ?n) = 1 / 2 ^ nat (bitlen ?n)" using b(3) by (simp add: pow2_def)
  have 2: "pow2 (- bitlen ?n + 1) = 1 / 2 ^ nat (bitlen ?n - 1)"
  proof (cases "bitlen ?n = 1")
    case True
    then show ?thesis by (simp add: pow2_def)
  next
    case False
    then have "- bitlen ?n + 1 < 0" using b(3) by simp
    moreover have "nat (- (- bitlen ?n + 1)) = nat (bitlen ?n - 1)" by simp
    ultimately show ?thesis by (simp add: pow2_def)
  qed
  have u: "1 / ?a \<le> 2 ^ nat (bitlen ?n)" using ny(2) b(2) by linarith
  have l: "2 ^ nat (bitlen ?n - 1) < 1 / ?a" using ny(1) b(1) by linarith
  have "1 / 2 ^ nat (bitlen ?n) \<le> ?a"
    using u a(1) by (simp add: field_simps)
  moreover have "?a < 1 / 2 ^ nat (bitlen ?n - 1)"
    using l a(1) by (simp add: field_simps)
  ultimately show ?thesis by (simp only: e 1 2)
qed

lemma float_exponent_log: "x \<noteq> 0 \<Longrightarrow> float_exponent x = \<lfloor>log 2 \<bar>x\<bar>\<rfloor>"
  using float_exponent_bounds[of x] floor_log2[of "float_exponent x" x] by simp

lemma float_exponent_eq:
  assumes "pow2 e \<le> \<bar>x\<bar>" and "\<bar>x\<bar> < pow2 (e + 1)"
  shows "float_exponent x = e"
proof -
  have "x \<noteq> 0" using assms(1) pow2_pos[of e] by auto
  then show ?thesis using float_exponent_log[of x] floor_log2[OF assms] by simp
qed

text \<open>Rounding a number of known binary exponent \<open>e\<close> in the normal range.\<close>

lemma to_double_normal:
  assumes "pow2 e \<le> \<bar>x\<bar>" and "\<bar>x\<bar> < pow2 (e + 1)" and "- 1022 \<le> e"
  shows "to_double x =
     (let r = pow2 (e - 52) * of_int (py_round (x / pow2 (e - 52)))
      in if 2 ^ 1024 \<le> \<bar>r\<bar> then None else Some r)"
proof -
  have "x \<noteq> 0" using assms(1) pow2_pos[of e] by auto
  then show ?thesis
    using float_exponent_eq[OF assms(1,2)] assms(3)
    by (simp add: to_double_def Let_def max_def)
qed

text \<open>The numbers of the examples are doubles, so rounding leaves them as they are; the
  quotient of 1 by the float \<^verbatim>\<open>0.1\<close> is not, and rounds to 10.\<close>

lemma to_double_one: "to_double 1 = Some 1"
  by (subst to_double_normal[where e = 0]) (simp_all add: pow2_def py_round_def Let_def)

lemma to_double_ten: "to_double 10 = Some 10"
  by (subst to_double_normal[where e = 3]) (simp_all add: pow2_def py_round_def Let_def)

lemma to_double_ten_three_quarters: "to_double (43 / 4) = Some (43 / 4)"
  by (subst to_double_normal[where e = 3]) (simp_all add: pow2_def py_round_def Let_def)

lemma to_double_one_by_tenth:
  "to_double (1 / (3602879701896397 / 36028797018963968)) = Some 10"
  by (subst to_double_normal[where e = 3]) (simp_all add: pow2_def py_round_def Let_def)

section \<open>The example loaders, evaluated\<close>

lemma cataloged_loader_eq:
  "cataloged_loader =
     \<lparr>limit = (4, 4), reference = Some example_refer, sig_init = False,
      files = [((2020, 1, 2), ''/data/20200102.tif''), ((2020, 1, 1), ''/data/20200101.tif'')],
      sorted_files = [], vrt_files = [], blocks = []\<rparr>"
  by (simp add: cataloged_loader_def setReference_def addFilesFromPath_def example_env_def
      endswith_def new_LazyLoader_def)

lemma example_blocks:
  "compute_blocks (10, 10) (4, 4) =
     Inr [(0,0),(0,1),(0,2),(1,0),(1,1),(1,2),(2,0),(2,1),(2,2)]"
  by (simp add: compute_blocks_def floordiv_def py_range_def upto.simps)

lemma example_vrt_paths:
  "vrt_path example_env ''/data/20200102.tif'' = ''/tmp/20200102.tif.vrt''"
  "vrt_path example_env ''/data/20200101.tif'' = ''/tmp/20200101.tif.vrt''"
  "vrt_path broken_env ''/data/20200102.tif'' = ''/tmp/20200102.tif.vrt''"
  by (simp_all add: vrt_path_def basename_def join_def example_env_def broken_env_def)

lemma example_env_fields:
  "gdal_Warp example_env = (\<lambda>p r. True)"
  "gdal_Warp broken_env = (\<lambda>p r. False)"
  "rasterio_open example_env = (\<lambda>p. Some (example_src p))"
  "to_string example_env = (\<lambda>c. Some c)"
  "transform_bounds example_env = (\<lambda>s t b. b)"
  by (simp_all add: example_env_def broken_env_def)

lemma init_cataloged:
  "init example_env cataloged_loader = (Inr (),
     \<lparr>limit = (4, 4), reference = Some example_refer, sig_init = True,
      files = [((2020, 1, 2), ''/data/20200102.tif''), ((2020, 1, 1), ''/data/20200101.tif'')],
      sorted_files = [(2020, 1, 1), (2020, 1, 2)],
      vrt_files = [''/tmp/20200102.tif.vrt'', ''/tmp/20200101.tif.vrt''],
      blocks = [(0,0),(0,1),(0,2),(1,0),(1,1),(1,2),(2,0),(2,1),(2,2)]\<rparr>)"
  by (simp add: init_def cataloged_loader_eq keys_def values_of_def example_env_fields
      example_vrt_paths example_blocks example_refer_def)

lemma ready_loader_eq:
  "ready_loader =
     \<lparr>limit = (4, 4), reference = Some example_refer, sig_init = True,
      files = [((2020, 1, 2), ''/data/20200102.tif''), ((2020, 1, 1), ''/data/20200101.tif'')],
      sorted_files = [(2020, 1, 1), (2020, 1, 2)],
      vrt_files = [''/tmp/20200102.tif.vrt'', ''/tmp/20200101.tif.vrt''],
      blocks = [(0,0),(0,1),(0,2),(1,0),(1,1),(1,2),(2,0),(2,1),(2,2)]\<rparr>"
  by (simp add: ready_loader_def init_cataloged)

lemma init_ready:
  "init example_env ready_loader = (Inr (),
     \<lparr>limit = (4, 4), reference = Some example_refer, sig_init = True,
      files = [((2020, 1, 2), ''/data/20200102.tif''), ((2020, 1, 1), ''/data/20200101.tif'')],
      sorted_files = [(2020, 1, 1), (2020, 1, 2)],
      vrt_files = [''/tmp/20200102.tif.vrt'', ''/tmp/20200101.tif.vrt'',
                   ''/tmp/20200102.tif.vrt'', ''/tmp/20200101.tif.vrt''],
      blocks = [(0,0),(0,1),(0,2),(1,0),(1,1),(1,2),(2,0),(2,1),(2,2)]\<rparr>)"
  by (simp add: init_def ready_loader_eq keys_def values_of_def example_env_fields
      example_vrt_paths example_blocks example_refer_def)

lemma getBlock_ready:
  "getBlock example_env ready_loader (0, 0) =
     (Inr [(''/tmp/20200102.tif.vrt'', Window 0 0 4 4),
           (''/tmp/20200101.tif.vrt'', Window 0 0 4 4)], ready_loader)"
  by (simp add: getBlock_def ready_loader_eq example_env_fields example_src_def getWindow_def
      example_refer_def)

lemma init_broken_cataloged:
  "init broken_env cataloged_loader =
     (Inl GDALError, cataloged_loader\<lparr>sorted_files := [(2020, 1, 1), (2020, 1, 2)]\<rparr>)"
  by (simp add: init_def cataloged_loader_eq keys_def values_of_def example_env_fields)

lemma float_examples:
  "float_sub 10 0 = Some 10"
  "float_sub (43 / 4) 0 = Some (43 / 4)"
  "float_sub 1 0 = Some 1"
  "truediv (Some 10) 1 = Inr (Some 10)"
  "truediv (Some (43 / 4)) 1 = Inr (Some (43 / 4))"
  "truediv (Some 1) (3602879701896397 / 36028797018963968) = Inr (Some 10)"
  "py_int (Some 10) = Inr 10"
  "py_int (Some (43 / 4)) = Inr 10"
  using to_double_one_by_tenth
  by (simp_all add: float_sub_def truediv_def py_int_def trunc_zero_def to_double_one
      to_double_ten to_double_ten_three_quarters)

lemma resolve_offset:
  "getReferenceFromFiles example_env offset_loader =
     (Inr (), offset_loader\<lparr>sig_init := False, reference := Some
        \<lparr>crs = ''EPSG:4326'', transform = (1, 0, 0, 0, - 1, 43 / 4), shape = (10, 10),
         bounds = (0, 0, 43 / 4, 43 / 4), res = (1, 1)\<rparr>\<rparr>)"
  by (simp add: getReferenceFromFiles_def resolve_def offset_loader_def new_LazyLoader_def
      values_of_def example_env_fields example_src_def target_crs_of_def max_key_def
      union_bounds_def py_min_def py_max_def grid_of_def float_examples from_origin_def)

text \<open>One raster of 10 by 10 pixels at resolution \<^verbatim>\<open>0.1\<close>: the exact quotient of 1 by that
  float is below 10, the float quotient is 10, and the shape is 10 by 10.\<close>

lemma resolve_tenth:
  "fst (getReferenceFromFiles example_env tenth_loader) = Inr () \<and>
   map_option shape (reference (snd (getReferenceFromFiles example_env tenth_loader))) =
     Some (10, 10) \<and>
   \<lfloor>(1 - 0) / (3602879701896397 / 36028797018963968 :: real)\<rfloor> = 9"
  by (simp add: getReferenceFromFiles_def resolve_def tenth_loader_def new_LazyLoader_def
      values_of_def example_env_fields example_src_def target_crs_of_def max_key_def
      union_bounds_def py_min_def py_max_def grid_of_def float_examples from_origin_def)

lemma collect_crs_mode:
  "collect_crs example_env (values_of (files mode_loader)) =
     Inr [''EPSG:4326'', ''EPSG:4326'', ''EPSG:3857'']"
  by (simp add: mode_loader_def new_LazyLoader_def values_of_def example_env_fields
      example_src_def)

lemma collect_crs_tie:
  "collect_crs example_env (values_of (files tie_loader)) = Inr [''EPSG:4326'', ''EPSG:3857'']"
  by (simp add: tie_loader_def new_LazyLoader_def values_of_def example_env_fields
      example_src_def)

lemma resolve_mode:
  "getReferenceFromFiles example_env mode_loader =
     (Inr (), snd (getReferenceFromFiles example_env mode_loader))"
  by (simp add: getReferenceFromFiles_def resolve_def mode_loader_def new_LazyLoader_def
      values_of_def example_env_fields example_src_def target_crs_of_def max_key_def
      union_bounds_def py_min_def py_max_def grid_of_def float_examples)

section \<open>Tile planning\<close>

text \<open>The block count \<^verbatim>\<open>(w + m - 1) // m\<close> is the ceiling of \<open>w / m\<close> for a positive
  limit.\<close>

lemma ceil_div_int:
  fixes w m :: int
  assumes "0 < m"
  shows "(w + m - 1) div m = - ((- w) div m)"
proof (cases "w mod m = 0")
  case True
  then have "m dvd w" by (simp add: mod_eq_0_iff_dvd)
  then obtain q where q: "w = q * m" by (auto simp: dvd_def mult.commute)
  have "(q * m + (m - 1)) div m = q + (m - 1) div m"
    by (rule div_mult_self3) (use assms in simp)
  moreover have "(m - 1) div m = 0" using assms by (simp add: div_pos_pos_trivial)
  moreover have "w + m - 1 = q * m + (m - 1)" using q by simp
  ultimately have "(w + m - 1) div m = q" by (simp only:)
  moreover have "(- w) div m = - q"
  proof -
    have "- w = (- q) * m" using q by simp
    then show ?thesis using assms by (simp only: nonzero_mult_div_cancel_right)
  qed
  ultimately show ?thesis by simp
next
  case False
  define q where "q = w div m"
  define r where "r = w mod m"
  have w: "w = q * m + r" by (simp add: q_def r_def)
  have "0 \<le> r" "r < m" using assms by (simp_all add: r_def)
  then have r: "0 < r" "r < m" using False by (simp_all add: r_def)
  have e: "w + m - 1 = (q + 1) * m + (r - 1)" using w by (simp add: algebra_simps)
  have "((q + 1) * m + (r - 1)) div m = (q + 1) + (r - 1) div m"
    by (rule div_mult_self3) (use assms in simp)
  then have "(w + m - 1) div m = (q + 1) + (r - 1) div m"
    by (simp only: e)
  moreover have "(r - 1) div m = 0" using r by (simp add: div_pos_pos_trivial)
  ultimately have L: "(w + m - 1) div m = q + 1" by simp
  have "(- w) div m = - (w div m) - 1"
    using False assms by (simp add: zdiv_zminus1_eq_if)
  then show ?thesis using L by (simp add: q_def)
qed

lemma ceil_div: "0 < m \<Longrightarrow> (w + m - 1) div m = \<lceil>real_of_int w / real_of_int m\<rceil>"
  by (simp add: ceil_div_int ceiling_divide_eq_div)

text \<open>Indexing a concatenation of rows of one length.\<close>

lemma nth_concat_uniform:
  "\<forall>xs \<in> set xss. length xs = n \<Longrightarrow> i < length xss \<Longrightarrow> j < n \<Longrightarrow>
   concat xss ! (i * n + j) = xss ! i ! j"
proof (induction xss arbitrary: i)
  case Nil
  then show ?case by simp
next
  case (Cons a xss)
  show ?case
  proof (cases i)
    case 0
    then show ?thesis using Cons.prems by (simp add: nth_append)
  next
    case (Suc k)
    then show ?thesis using Cons.prems Cons.IH[of k] by (simp add: nth_append)
  qed
qed

lemma length_concat_uniform:
  "\<forall>xs \<in> set xss. length xs = n \<Longrightarrow> length (concat xss) = length xss * n"
  by (induction xss) auto

lemma length_py_range: "length (py_range n) = nat n"
  by (simp add: py_range_def)

lemma nth_py_range: "0 \<le> i \<Longrightarrow> i < n \<Longrightarrow> py_range n ! nat i = i"
  by (simp add: py_range_def)

lemma grid_length:
  "length (concat (map (\<lambda>x. map (\<lambda>y. (x, y)) (py_range ty)) (py_range tx))) = nat tx * nat ty"
  by (subst length_concat_uniform[where n = "nat ty"]) (auto simp: length_py_range)

lemma grid_nth:
  assumes "0 \<le> x" "x < tx" "0 \<le> y" "y < ty"
  shows "concat (map (\<lambda>x. map (\<lambda>y. (x, y)) (py_range ty)) (py_range tx)) ! nat (x * ty + y) = (x, y)"
proof -
  let ?xss = "map (\<lambda>x. map (\<lambda>y. (x, y)) (py_range ty)) (py_range tx)"
  have u: "\<forall>xs \<in> set ?xss. length xs = nat ty" by (auto simp: length_py_range)
  have i: "nat x < length ?xss" using assms by (simp add: length_py_range)
  have j: "nat y < nat ty" using assms by simp
  have "nat (x * ty + y) = nat x * nat ty + nat y"
    using assms by (simp add: nat_add_distrib nat_mult_distrib)
  then have "concat ?xss ! nat (x * ty + y) = ?xss ! nat x ! nat y"
    using nth_concat_uniform[OF u i j] by simp
  also have "\<dots> = (x, y)"
    using assms by (simp add: length_py_range nth_py_range)
  finally show ?thesis .
qed

lemma compute_blocks_pos:
  assumes "0 < mw" "0 < mh"
  shows "compute_blocks (w, h) (mw, mh) =
    Inr (concat (map (\<lambda>x. map (\<lambda>y. (x, y))
       (py_range \<lceil>real_of_int h / real_of_int mh\<rceil>)) (py_range \<lceil>real_of_int w / real_of_int mw\<rceil>)))"
  using assms by (simp add: compute_blocks_def floordiv_def ceil_div)

text \<open>A planned tile starts inside the grid, so its window has a positive size.\<close>

lemma planned_size_pos:
  fixes w m x :: int
  assumes "0 < m" and "x < \<lceil>real_of_int w / real_of_int m\<rceil>"
  shows "0 < min m (w - x * m)"
proof -
  have "real_of_int x < real_of_int w / real_of_int m"
    using assms(2) by (simp add: less_ceiling_iff)
  then have "real_of_int x * real_of_int m < real_of_int w"
    using assms(1) by (simp add: pos_less_divide_eq)
  then have "real_of_int (x * m) < real_of_int w" by simp
  then have "x * m < w" by (simp only: of_int_less_iff)
  then show ?thesis using assms(1) by simp
qed

lemma grid_set:
  "set (concat (map (\<lambda>x. map (\<lambda>y. (x, y)) (py_range ty)) (py_range tx))) =
     {(x, y). 0 \<le> x \<and> x < tx \<and> 0 \<le> y \<and> y < ty}"
  by (auto simp: py_range_def)

text \<open>The loop that builds the views changes \<^verbatim>\<open>vrt_files\<close> only, and completes when
  every source can be warped; then \<^verbatim>\<open>init\<close> completes when the limit is not zero, and
  stores the plan for the shape of the reference and the limit.\<close>

lemma build_vrts_limit: "limit (snd (build_vrts E r ps l)) = limit l"
  by (induction ps arbitrary: l) simp_all

lemma build_vrts_all:
  "\<forall>p \<in> set ps. gdal_Warp E p r \<Longrightarrow>
   build_vrts E r ps l = (Inr (), l\<lparr>vrt_files := vrt_files l @ map (vrt_path E) ps\<rparr>)"
  by (induction ps arbitrary: l) simp_all

lemma init_blocks:
  assumes "init E l = (Inr u, l')" and "reference l = Some r"
  shows "compute_blocks (shape r) (limit l) = Inr (blocks l')"
proof -
  let ?l1 = "l\<lparr>sorted_files := sort (keys (files l))\<rparr>"
  obtain res l2 where b: "build_vrts E r (values_of (files ?l1)) ?l1 = (res, l2)"
    by (cases "build_vrts E r (values_of (files ?l1)) ?l1")
  have lim: "limit l2 = limit l"
    using build_vrts_limit[of E r "values_of (files ?l1)" ?l1] b by simp
  show ?thesis
    using assms b lim
    by (auto simp: init_def Let_def split: sum.splits)
qed

lemma init_completes:
  assumes "reference l = Some r" and "compute_blocks (shape r) (limit l) = Inr bs"
    and "\<forall>p \<in> set (values_of (files l)). gdal_Warp E p r"
  shows "init E l =
     (Inr (), l\<lparr>sorted_files := sort (keys (files l)),
                vrt_files := vrt_files l @ map (vrt_path E) (values_of (files l)),
                blocks := bs, sig_init := True\<rparr>)"
proof -
  let ?l1 = "l\<lparr>sorted_files := sort (keys (files l))\<rparr>"
  have "build_vrts E r (values_of (files ?l1)) ?l1 =
      (Inr (), ?l1\<lparr>vrt_files := vrt_files ?l1 @ map (vrt_path E) (values_of (files ?l1))\<rparr>)"
    using assms(3) by (intro build_vrts_all) simp
  then show ?thesis using assms(1,2) by (simp add: init_def Let_def)
qed

text \<open>
  C6. For a positive shape \<open>(w, h)\<close> and a positive limit \<open>(mw, mh)\<close>, the tile plan of
  \<^verbatim>\<open>init\<close> has \<open>\<lceil>w / mw\<rceil> * \<lceil>h / mh\<rceil>\<close> tiles, enumerated with \<open>x\<close> outer and \<open>y\<close>
  inner (tile \<open>(x, y)\<close> stands at position \<open>x * ty + y\<close>). For every tile \<open>(x, y)\<close> of the
  plan, \<^verbatim>\<open>getWindow\<close> of a loader with that limit and shape returns the window starting
  at \<open>(x * mw, y * mh)\<close> of size \<open>min mw (w - x * mw)\<close> by \<open>min mh (h - y * mh)\<close>, both positive.
  \<^verbatim>\<open>init\<close> of such a loader completes whenever every cataloged source can be warped,
  and it stores exactly this plan in \<^verbatim>\<open>blocks\<close>.
\<close>

theorem tile_plan:
  assumes "0 < w" and "0 < h" and "0 < mw" and "0 < mh"
    and "limit l = (mw, mh)" and "reference l = Some r" and "shape r = (w, h)"
  shows "\<exists>bs tx ty.
      tx = \<lceil>real_of_int w / real_of_int mw\<rceil> \<and> ty = \<lceil>real_of_int h / real_of_int mh\<rceil> \<and>
      compute_blocks (w, h) (mw, mh) = Inr bs \<and>
      bs = [(x, y). x \<leftarrow> [0..tx - 1], y \<leftarrow> [0..ty - 1]] \<and>
      int (length bs) = tx * ty \<and>
      (\<forall>x y. 0 \<le> x \<and> x < tx \<and> 0 \<le> y \<and> y < ty \<longrightarrow> bs ! nat (x * ty + y) = (x, y)) \<and>
      (\<forall>x y. (x, y) \<in> set bs \<longleftrightarrow> 0 \<le> x \<and> x < tx \<and> 0 \<le> y \<and> y < ty) \<and>
      (\<forall>x y. (x, y) \<in> set bs \<longrightarrow>
          0 < min mw (w - x * mw) \<and> 0 < min mh (h - y * mh) \<and>
          getWindow l (x, y) =
            Inr (Window (x * mw) (y * mh) (min mw (w - x * mw)) (min mh (h - y * mh)))) \<and>
      (\<forall>E :: ('c, 'px) env. (\<forall>p \<in> set (values_of (files l)). gdal_Warp E p r) \<longrightarrow>
          fst (init E l) = Inr () \<and> blocks (snd (init E l)) = bs \<and> sig_init (snd (init E l))) \<and>
      (\<forall>(E :: ('c, 'px) env) u l'. init E l = (Inr u, l') \<longrightarrow> blocks l' = bs)"
proof -
  let ?tx = "\<lceil>real_of_int w / real_of_int mw\<rceil>"
  let ?ty = "\<lceil>real_of_int h / real_of_int mh\<rceil>"
  let ?bs = "concat (map (\<lambda>x. map (\<lambda>y. (x, y)) (py_range ?ty)) (py_range ?tx))"
  have tx: "0 < ?tx" using assms(1,3) by (simp add: zero_less_ceiling)
  have ty: "0 < ?ty" using assms(2,4) by (simp add: zero_less_ceiling)
  have c: "compute_blocks (w, h) (mw, mh) = Inr ?bs"
    using assms(3,4) by (rule compute_blocks_pos)
  have e: "?bs = [(x, y). x \<leftarrow> [0..?tx - 1], y \<leftarrow> [0..?ty - 1]]"
    by (simp add: py_range_def)
  have n: "int (length ?bs) = ?tx * ?ty"
    using tx ty by (simp add: grid_length nat_mult_distrib)
  have i: "\<forall>x y. 0 \<le> x \<and> x < ?tx \<and> 0 \<le> y \<and> y < ?ty \<longrightarrow> ?bs ! nat (x * ?ty + y) = (x, y)"
    by (simp add: grid_nth)
  have m: "\<forall>x y. (x, y) \<in> set ?bs \<longleftrightarrow> 0 \<le> x \<and> x < ?tx \<and> 0 \<le> y \<and> y < ?ty"
    unfolding grid_set by simp
  have g: "\<forall>x y. (x, y) \<in> set ?bs \<longrightarrow>
          0 < min mw (w - x * mw) \<and> 0 < min mh (h - y * mh) \<and>
          getWindow l (x, y) =
            Inr (Window (x * mw) (y * mh) (min mw (w - x * mw)) (min mh (h - y * mh)))"
  proof (intro allI impI)
    fix x y assume "(x, y) \<in> set ?bs"
    then have xy: "x < ?tx" "y < ?ty" using m by simp_all
    have px: "0 < min mw (w - x * mw)" using planned_size_pos[OF assms(3) xy(1)] .
    have py: "0 < min mh (h - y * mh)" using planned_size_pos[OF assms(4) xy(2)] .
    have nn: "\<not> (min mw (w - x * mw) < 0 \<or> min mh (h - y * mh) < 0)"
      using px py by linarith
    have "getWindow l (x, y) =
            Inr (Window (x * mw) (y * mh) (min mw (w - x * mw)) (min mh (h - y * mh)))"
      using assms(5,6,7) nn by (simp add: getWindow_def Let_def)
    then show "0 < min mw (w - x * mw) \<and> 0 < min mh (h - y * mh) \<and>
          getWindow l (x, y) =
            Inr (Window (x * mw) (y * mh) (min mw (w - x * mw)) (min mh (h - y * mh)))"
      using px py by simp
  qed
  have cl: "compute_blocks (shape r) (limit l) = Inr ?bs"
    using c assms(5,7) by simp
  have s: "\<forall>E :: ('c, 'px) env. (\<forall>p \<in> set (values_of (files l)). gdal_Warp E p r) \<longrightarrow>
          fst (init E l) = Inr () \<and> blocks (snd (init E l)) = ?bs \<and> sig_init (snd (init E l))"
  proof (intro allI impI)
    fix E :: "('c, 'px) env"
    assume a: "\<forall>p \<in> set (values_of (files l)). gdal_Warp E p r"
    show "fst (init E l) = Inr () \<and> blocks (snd (init E l)) = ?bs \<and> sig_init (snd (init E l))"
      by (simp add: init_completes[OF assms(6) cl a])
  qed
  have b: "\<forall>(E :: ('c, 'px) env) u l'. init E l = (Inr u, l') \<longrightarrow> blocks l' = ?bs"
    using init_blocks[OF _ assms(6)] cl by fastforce
  show ?thesis using c e n i m g s b by blast
qed

lemma cataloged_loader_fields:
  "limit cataloged_loader = (4, 4)"
  "reference cataloged_loader = Some example_refer"
  "shape example_refer = (10, 10)"
  by (simp_all add: cataloged_loader_eq) (simp add: example_refer_def)

text \<open>Outside the plan the size is negative and \<^verbatim>\<open>Window\<close> raises: tile \<open>(3, 0)\<close> of the
  10 by 10 grid would start at column 12.\<close>

lemma window_outside_plan: "getWindow cataloged_loader (3, 0) = Inl ValueError"
  by (simp add: getWindow_def cataloged_loader_eq example_refer_def)

text \<open>The plan of a 10 by 10 grid with limit 4 by 4, stored by \<^verbatim>\<open>init\<close> on the loader with
  two cataloged files: nine tiles, the last row and column clipped to 2.\<close>

theorem tile_plan_witness:
  "compute_blocks (10, 10) (4, 4) =
     Inr [(0,0),(0,1),(0,2),(1,0),(1,1),(1,2),(2,0),(2,1),(2,2)] \<and>
   fst (init example_env cataloged_loader) = Inr () \<and>
   blocks (snd (init example_env cataloged_loader)) =
     [(0,0),(0,1),(0,2),(1,0),(1,1),(1,2),(2,0),(2,1),(2,2)] \<and>
   map (getWindow cataloged_loader) [(0,0),(0,1),(0,2),(1,0),(1,1),(1,2),(2,0),(2,1),(2,2)] =
     [Inr (Window 0 0 4 4), Inr (Window 0 4 4 4), Inr (Window 0 8 4 2),
      Inr (Window 4 0 4 4), Inr (Window 4 4 4 4), Inr (Window 4 8 4 2),
      Inr (Window 8 0 2 4), Inr (Window 8 4 2 4), Inr (Window 8 8 2 2)]"
proof -
  have p: "(0::int) < 10" "(0::int) < 4" by simp_all
  from tile_plan[OF p(1) p(1) p(2) p(2) cataloged_loader_fields,
      where ?'c = string and ?'px = "string \<times> Window"]
  obtain bs tx ty where
    t: "tx = \<lceil>real_of_int 10 / real_of_int 4\<rceil>" "ty = \<lceil>real_of_int 10 / real_of_int 4\<rceil>"
    and c: "compute_blocks (10, 10) (4, 4) = Inr bs"
    and b: "bs = [(x, y). x \<leftarrow> [0..tx - 1], y \<leftarrow> [0..ty - 1]]"
    and g: "\<forall>x y. (x, y) \<in> set bs \<longrightarrow>
          0 < min 4 (10 - x * 4) \<and> 0 < min 4 (10 - y * 4) \<and>
          getWindow cataloged_loader (x, y) =
            Inr (Window (x * 4) (y * 4) (min 4 (10 - x * 4)) (min 4 (10 - y * 4)))"
    and s: "\<forall>E :: (string, string \<times> Window) env.
          (\<forall>p \<in> set (values_of (files cataloged_loader)). gdal_Warp E p example_refer) \<longrightarrow>
          fst (init E cataloged_loader) = Inr () \<and> blocks (snd (init E cataloged_loader)) = bs \<and>
          sig_init (snd (init E cataloged_loader))"
    by blast
  have "tx = 3" "ty = 3" using t by simp_all
  then have bs: "bs = [(0,0),(0,1),(0,2),(1,0),(1,1),(1,2),(2,0),(2,1),(2,2)]"
    using b by (simp add: upto.simps)
  have "\<forall>p \<in> set (values_of (files cataloged_loader)). gdal_Warp example_env p example_refer"
    by (simp add: example_env_fields)
  then have i: "fst (init example_env cataloged_loader) = Inr ()"
    "blocks (snd (init example_env cataloged_loader)) = bs"
    using s by blast+
  have w: "map (getWindow cataloged_loader) bs =
     [Inr (Window 0 0 4 4), Inr (Window 0 4 4 4), Inr (Window 0 8 4 2),
      Inr (Window 4 0 4 4), Inr (Window 4 4 4 4), Inr (Window 4 8 4 2),
      Inr (Window 8 0 2 4), Inr (Window 8 4 2 4), Inr (Window 8 8 2 2)]"
    using g by (simp add: bs)
  show ?thesis using c i w by (simp add: bs)
qed

section \<open>Order and number of the views read by \<^verbatim>\<open>getBlock\<close>\<close>

text \<open>
  C1. The specification has \<^verbatim>\<open>getBlock\<close> on an initialized loader return one slice per
  cataloged file, in ascending date order of the catalog keys. The code does otherwise:
  \<^verbatim>\<open>init\<close> sorts the keys into \<^verbatim>\<open>sorted_files\<close> but builds the views in the order of
  \<^verbatim>\<open>files.values()\<close>. For the directory that lists 2 January before 1 January the
  loader is initialized, the sorted keys are 1 January, 2 January, and the block read at
  tile \<open>(0, 0)\<close> has the view of 2 January first.
\<close>

theorem getBlock_not_chronological:
  "sig_init ready_loader \<and>
   files ready_loader =
     [((2020, 1, 2), ''/data/20200102.tif''), ((2020, 1, 1), ''/data/20200101.tif'')] \<and>
   sort (keys (files ready_loader)) = [(2020, 1, 1), (2020, 1, 2)] \<and>
   fst (getBlock example_env ready_loader (0, 0)) =
     Inr [(''/tmp/20200102.tif.vrt'', Window 0 0 4 4),
          (''/tmp/20200101.tif.vrt'', Window 0 0 4 4)]"
  by (simp add: getBlock_ready) (simp add: ready_loader_eq keys_def)

text \<open>
  C2. The specification has a second \<^verbatim>\<open>init()\<close>, with no change in between, yield the
  same tiles and the same number of views. The code does otherwise: \<^verbatim>\<open>init\<close> appends to
  \<^verbatim>\<open>vrt_files\<close> and never empties it: with two cataloged files the first call leaves two
  views and the second call four, while the tiles stay the same.
\<close>

theorem init_twice_doubles_views:
  "fst (init example_env cataloged_loader) = Inr () \<and>
   length (vrt_files (snd (init example_env cataloged_loader))) = 2 \<and>
   fst (init example_env (snd (init example_env cataloged_loader))) = Inr () \<and>
   length (vrt_files (snd (init example_env (snd (init example_env cataloged_loader))))) = 4 \<and>
   blocks (snd (init example_env (snd (init example_env cataloged_loader)))) =
     blocks (snd (init example_env cataloged_loader))"
  using init_ready by (simp add: init_cataloged ready_loader_eq)

section \<open>The readiness flag\<close>

text \<open>A successful \<^verbatim>\<open>addFilesFromPath\<close> and a successful
  \<^verbatim>\<open>getReferenceFromFiles\<close> clear the flag.\<close>

lemma addFilesFromPath_clears:
  "addFilesFromPath E p sl fmt l = (Inr u, l') \<Longrightarrow> \<not> sig_init l'"
  by (auto simp: addFilesFromPath_def split: option.splits prod.splits sum.splits)

lemma getReferenceFromFiles_clears:
  "getReferenceFromFiles E l = (Inr u, l') \<Longrightarrow> \<not> sig_init l'"
  by (auto simp: getReferenceFromFiles_def Let_def split: sum.splits prod.splits option.splits)

text \<open>
  C3. The specification has every catalog mutation and every reassignment of the
  reference leave \<^verbatim>\<open>sig_init\<close> false. The code does otherwise: \<^verbatim>\<open>setReference\<close> assigns
  the reference and nothing else: on the initialized loader it installs another reference
  and the flag stays true.
\<close>

theorem setReference_keeps_ready:
  "sig_init ready_loader = True \<and>
   reference (setReference other_refer ready_loader) = Some other_refer \<and>
   sig_init (setReference other_refer ready_loader) = True"
  by (simp add: setReference_def ready_loader_eq)

text \<open>\<^verbatim>\<open>init\<close> touches the flag only in its last statement; the loop that builds the
  views leaves it alone.\<close>

lemma build_vrts_sig_init: "sig_init (snd (build_vrts E r ps l)) = sig_init l"
  by (induction ps arbitrary: l) simp_all

text \<open>
  C4, as stated: after a failed \<^verbatim>\<open>init()\<close> the flag is false, whatever the loader was
  before. It fails for a loader that was initialized before: when the sources can no
  longer be warped, the second \<^verbatim>\<open>init()\<close> raises and the flag is still true.
\<close>

theorem init_failure_keeps_ready:
  "sig_init ready_loader = True \<and>
   fst (init broken_env ready_loader) = Inl GDALError \<and>
   sig_init (snd (init broken_env ready_loader)) = True"
  by (simp add: init_def ready_loader_eq keys_def values_of_def example_env_fields)

text \<open>
  C4, amended. A failed \<^verbatim>\<open>init()\<close> leaves \<^verbatim>\<open>sig_init\<close> at the value it had before the
  call; so a loader that was not ready before the failed call is not ready after it.
\<close>

theorem init_failure_flag:
  assumes "fst (init E l) = Inl e"
  shows "sig_init (snd (init E l)) = sig_init l"
proof (cases "reference l")
  case None
  then show ?thesis by (simp add: init_def)
next
  case (Some r)
  let ?l1 = "l\<lparr>sorted_files := sort (keys (files l))\<rparr>"
  obtain res l2 where b: "build_vrts E r (values_of (files ?l1)) ?l1 = (res, l2)"
    by (cases "build_vrts E r (values_of (files ?l1)) ?l1")
  have s: "sig_init l2 = sig_init l"
    using build_vrts_sig_init[of E r "values_of (files ?l1)" ?l1] b by simp
  show ?thesis
  proof (cases res)
    case (Inl e')
    then show ?thesis using Some b s by (simp add: init_def Let_def)
  next
    case (Inr u)
    show ?thesis
    proof (cases "compute_blocks (shape r) (limit l2)")
      case (Inl e')
      then show ?thesis using Some b s Inr by (simp add: init_def Let_def)
    next
      case (Inr bs)
      then have "fst (init E l) = Inr ()"
        using Some b \<open>res = Inr u\<close> by (simp add: init_def Let_def)
      then show ?thesis using assms by simp
    qed
  qed
qed

theorem init_failure_flag_witness:
  "fst (init broken_env cataloged_loader) = Inl GDALError \<and>
   sig_init cataloged_loader = False \<and>
   sig_init (snd (init broken_env cataloged_loader)) = False"
proof -
  have f: "fst (init broken_env cataloged_loader) = Inl GDALError"
    by (simp add: init_broken_cataloged)
  have "sig_init cataloged_loader = False" by (simp add: cataloged_loader_eq)
  then show ?thesis using f init_failure_flag[OF f] by simp
qed

section \<open>Operations out of sequence\<close>

text \<open>\<^verbatim>\<open>init\<close> without a reference and \<^verbatim>\<open>getBlock\<close> before \<^verbatim>\<open>init\<close> raise
  \<^verbatim>\<open>RuntimeError\<close>.\<close>

lemma init_without_reference:
  "reference l = None \<Longrightarrow>
   init E l = (Inl (RuntimeError ''RSDataLazyLoader requires a reference before init''), l)"
  by (simp add: init_def)

lemma getBlock_not_ready:
  "\<not> sig_init l \<Longrightarrow>
   getBlock E l index = (Inl (RuntimeError ''RSDataLazyLoader requires init before getBlock''), l)"
  by (simp add: getBlock_def)

text \<open>
  C5. The specification has \<^verbatim>\<open>init()\<close> with an empty catalog, and iteration while the
  loader is not ready, fail with the precondition error. The code does otherwise: the test of
  \<^verbatim>\<open>init\<close> is \<^verbatim>\<open>self.files is None\<close>, which an empty dict does not meet: with a
  reference and no file \<^verbatim>\<open>init()\<close> succeeds, sets the flag, and \<^verbatim>\<open>getBlock\<close> returns an
  empty stack. Iterating a loader fresh from its constructor (not ready, no blocks)
  yields nothing and raises nothing.
\<close>

theorem init_empty_catalog_succeeds:
  "files example_loader = [] \<and>
   fst (init example_env example_loader) = Inr () \<and>
   sig_init (snd (init example_env example_loader)) = True \<and>
   fst (getBlock example_env (snd (init example_env example_loader)) (0, 0)) = Inr [] \<and>
   sig_init (new_LazyLoader (4, 4)) = False \<and>
   fst (iter example_env (new_LazyLoader (4, 4))) = ([], None)"
  by (simp add: init_def example_loader_def setReference_def new_LazyLoader_def keys_def
      values_of_def example_blocks example_refer_def getBlock_def iter_def)

section \<open>Reference resolution\<close>

subsection \<open>The target projection\<close>

text \<open>The loop of \<^verbatim>\<open>max\<close> returns an element of the list, of maximal key, and the
  first such.\<close>

lemma max_loop_in: "max_loop k b xs \<in> set (b # xs)"
  by (induction xs arbitrary: b) auto

lemma max_loop_ge_best: "k b \<le> k (max_loop k b xs)"
proof (induction xs arbitrary: b)
  case Nil
  show ?case by simp
next
  case (Cons x xs)
  show ?case using Cons.IH[of x] Cons.IH[of b] by auto
qed

lemma max_loop_ge: "y \<in> set (b # xs) \<Longrightarrow> k y \<le> k (max_loop k b xs)"
proof (induction xs arbitrary: b)
  case Nil
  then show ?case by simp
next
  case (Cons x xs)
  show ?case
  proof (cases "k b < k x")
    case True
    have "k y \<le> k (max_loop k x xs)"
    proof (cases "y = b")
      case True
      then show ?thesis using \<open>k b < k x\<close> max_loop_ge_best[of k x xs] by simp
    next
      case False
      then show ?thesis using Cons.prems Cons.IH[of x] by auto
    qed
    then show ?thesis using True by simp
  next
    case False
    have "k y \<le> k (max_loop k b xs)"
    proof (cases "y = x")
      case True
      then show ?thesis using False max_loop_ge_best[of k b xs] by simp
    next
      case False
      then show ?thesis using Cons.prems Cons.IH[of b] by auto
    qed
    then show ?thesis using False by simp
  qed
qed

lemma max_loop_first:
  "\<exists>i < length (b # xs). (b # xs) ! i = max_loop k b xs \<and>
     (\<forall>j < i. k ((b # xs) ! j) < k (max_loop k b xs))"
proof (induction xs arbitrary: b)
  case Nil
  show ?case by simp
next
  case (Cons x xs)
  show ?case
  proof (cases "k b < k x")
    case True
    from Cons.IH[of x] obtain i where i: "i < length (x # xs)" "(x # xs) ! i = max_loop k x xs"
      "\<forall>j < i. k ((x # xs) ! j) < k (max_loop k x xs)" by blast
    have b: "k b < k (max_loop k x xs)"
      using True max_loop_ge_best[of k x xs] by simp
    have "\<forall>j < Suc i. k ((b # x # xs) ! j) < k (max_loop k x xs)"
    proof (intro allI impI)
      fix j assume "j < Suc i"
      then show "k ((b # x # xs) ! j) < k (max_loop k x xs)"
        using b i(3) by (cases j) auto
    qed
    then show ?thesis using True i by (intro exI[of _ "Suc i"]) simp
  next
    case False
    from Cons.IH[of b] obtain i where i: "i < length (b # xs)" "(b # xs) ! i = max_loop k b xs"
      "\<forall>j < i. k ((b # xs) ! j) < k (max_loop k b xs)" by blast
    show ?thesis
    proof (cases i)
      case 0
      then show ?thesis using False i by (intro exI[of _ 0]) simp
    next
      case (Suc m)
      have x: "k x < k (max_loop k b xs)"
      proof -
        have "k b < k (max_loop k b xs)" using i(3) Suc by auto
        then show ?thesis using False by simp
      qed
      have "\<forall>j < Suc i. k ((b # x # xs) ! j) < k (max_loop k b xs)"
      proof (intro allI impI)
        fix j assume j: "j < Suc i"
        show "k ((b # x # xs) ! j) < k (max_loop k b xs)"
        proof (cases j)
          case 0
          then show ?thesis using i(3) Suc by auto
        next
          case (Suc j')
          show ?thesis
          proof (cases j')
            case 0
            then show ?thesis using Suc x by simp
          next
            case (Suc j'')
            then have "j'' < m" "Suc j'' < i" using j \<open>j = Suc j'\<close> \<open>i = Suc m\<close> by auto
            then show ?thesis using i(3) \<open>j = Suc j'\<close> Suc by auto
          qed
        qed
      qed
      then show ?thesis using False i Suc by (intro exI[of _ "Suc i"]) simp
    qed
  qed
qed


lemma target_crs_of_mode:
  assumes "cs \<noteq> []"
  shows "\<exists>t. target_crs_of cs = Inr t \<and> t \<in> set cs \<and>
         (\<forall>c \<in> set cs. count_list cs c \<le> count_list cs t) \<and>
         (\<exists>i < length cs. cs ! i = t \<and> (\<forall>j < i. count_list cs (cs ! j) < count_list cs t))"
proof -
  obtain b xs where cs: "cs = b # xs" using assms by (cases cs) auto
  let ?k = "count_list cs"
  let ?t = "max_loop ?k b xs"
  have 1: "target_crs_of cs = Inr ?t" by (simp add: target_crs_of_def max_key_def cs)
  have 2: "?t \<in> set cs" using max_loop_in[of ?k b xs] cs by simp
  have 3: "\<forall>c \<in> set cs. ?k c \<le> ?k ?t" using max_loop_ge[of _ b xs ?k] cs by simp
  have 4: "\<exists>i < length cs. cs ! i = ?t \<and> (\<forall>j < i. ?k (cs ! j) < ?k ?t)"
    using max_loop_first[of b xs ?k] cs by simp
  show ?thesis using 1 2 3 4 by blast
qed

lemma resolve_target:
  assumes "resolve E ps = Inr (target, t, shp, b, rs)"
    and "collect_crs E ps = Inr cs" and "target_crs_of cs = Inr tc"
  shows "target = tc"
  using assms
  by (auto simp: resolve_def split: sum.splits list.splits option.splits prod.splits)

lemma getReferenceFromFiles_Inr:
  assumes "getReferenceFromFiles E l = (Inr u, l')"
  shows "\<exists>target t shp b rs c.
     resolve E (values_of (files l)) = Inr (target, t, shp, b, rs) \<and>
     to_string E target = Some c \<and>
     l' = l\<lparr>sig_init := False,
            reference := Some \<lparr>crs = c, transform = t, shape = shp, bounds = b, res = rs\<rparr>\<rparr>"
  using assms
  by (auto simp: getReferenceFromFiles_def Let_def
      split: sum.splits prod.splits option.splits)

text \<open>
  C7. For the projections \<open>cs\<close> of a non-empty set of sources, read in the order of
  \<^verbatim>\<open>files.values()\<close>, the target projection is an element of \<open>cs\<close> whose number of
  occurrences is maximal, and it is the first such element: it stands at a position before
  which every element occurs strictly less often. When \<^verbatim>\<open>getReferenceFromFiles\<close>
  completes, the projection of the new reference is the name of this one.
\<close>

theorem target_projection_is_mode:
  assumes "collect_crs E (values_of (files l)) = Inr cs" and "cs \<noteq> []"
  shows "\<exists>t. target_crs_of cs = Inr t \<and> t \<in> set cs \<and>
         (\<forall>c \<in> set cs. count_list cs c \<le> count_list cs t) \<and>
         (\<exists>i < length cs. cs ! i = t \<and> (\<forall>j < i. count_list cs (cs ! j) < count_list cs t)) \<and>
         (\<forall>u l'. getReferenceFromFiles E l = (Inr u, l') \<longrightarrow>
            (\<exists>r. reference l' = Some r \<and> to_string E t = Some (crs r)))"
proof -
  from target_crs_of_mode[OF assms(2)] obtain t where
    t: "target_crs_of cs = Inr t" "t \<in> set cs"
       "\<forall>c \<in> set cs. count_list cs c \<le> count_list cs t"
       "\<exists>i < length cs. cs ! i = t \<and> (\<forall>j < i. count_list cs (cs ! j) < count_list cs t)"
    by blast
  have "\<exists>r. reference l' = Some r \<and> to_string E t = Some (crs r)"
    if g: "getReferenceFromFiles E l = (Inr u, l')" for u l'
  proof -
    from getReferenceFromFiles_Inr[OF g] obtain target tr shp b rs c where
      r: "resolve E (values_of (files l)) = Inr (target, tr, shp, b, rs)"
      and c: "to_string E target = Some c"
      and l': "l' = l\<lparr>sig_init := False,
            reference := Some \<lparr>crs = c, transform = tr, shape = shp, bounds = b, res = rs\<rparr>\<rparr>"
      by blast
    have "target = t" using resolve_target[OF r assms(1) t(1)] .
    then show ?thesis using l' c by simp
  qed
  then show ?thesis using t by blast
qed

text \<open>Projections A, A, B select A; the tie A, B selects A.\<close>

theorem target_projection_is_mode_witness:
  "collect_crs example_env (values_of (files mode_loader)) =
     Inr [''EPSG:4326'', ''EPSG:4326'', ''EPSG:3857''] \<and>
   target_crs_of [''EPSG:4326'', ''EPSG:4326'', ''EPSG:3857''] = Inr ''EPSG:4326'' \<and>
   map_option crs (reference (snd (getReferenceFromFiles example_env mode_loader))) =
     Some ''EPSG:4326'' \<and>
   collect_crs example_env (values_of (files tie_loader)) = Inr [''EPSG:4326'', ''EPSG:3857''] \<and>
   target_crs_of [''EPSG:4326'', ''EPSG:3857''] = Inr ''EPSG:4326''"
proof -
  let ?A = "''EPSG:4326''" and ?B = "''EPSG:3857''"
  have n: "[?A, ?A, ?B] \<noteq> []" "[?A, ?B] \<noteq> []" by simp_all
  from target_projection_is_mode[OF collect_crs_mode n(1)] obtain t where
    t: "target_crs_of [?A, ?A, ?B] = Inr t"
       "\<forall>c \<in> set [?A, ?A, ?B]. count_list [?A, ?A, ?B] c \<le> count_list [?A, ?A, ?B] t"
       "t \<in> set [?A, ?A, ?B]"
       "\<forall>u l'. getReferenceFromFiles example_env mode_loader = (Inr u, l') \<longrightarrow>
            (\<exists>r. reference l' = Some r \<and> to_string example_env t = Some (crs r))"
    by blast
  have tA: "t = ?A"
  proof (rule ccontr)
    assume "t \<noteq> ?A"
    then have "t = ?B" using t(3) by simp
    then show False using t(2) by simp
  qed
  from t(4) resolve_mode obtain r where
    r: "reference (snd (getReferenceFromFiles example_env mode_loader)) = Some r"
       "to_string example_env t = Some (crs r)"
    by blast
  have m: "map_option crs (reference (snd (getReferenceFromFiles example_env mode_loader))) =
     Some ?A"
    using r tA by (simp add: example_env_fields)
  from target_projection_is_mode[OF collect_crs_tie n(2)] obtain t' where
    t': "target_crs_of [?A, ?B] = Inr t'"
        "t' \<in> set [?A, ?B]"
        "\<exists>i < length [?A, ?B]. [?A, ?B] ! i = t' \<and>
           (\<forall>j < i. count_list [?A, ?B] ([?A, ?B] ! j) < count_list [?A, ?B] t')"
    by blast
  have t'A: "t' = ?A"
  proof (rule ccontr)
    assume a: "t' \<noteq> ?A"
    then have b: "t' = ?B" using t'(2) by simp
    from t'(3) obtain i where i: "i < length [?A, ?B]" "[?A, ?B] ! i = t'"
      "\<forall>j < i. count_list [?A, ?B] ([?A, ?B] ! j) < count_list [?A, ?B] t'" by blast
    have "i = 1" using i(1,2) a by (cases i) auto
    then have "count_list [?A, ?B] ([?A, ?B] ! 0) < count_list [?A, ?B] t'" using i(3) by simp
    then show False using b by simp
  qed
  show ?thesis using collect_crs_mode collect_crs_tie t(1) tA m t'(1) t'A by simp
qed

subsection \<open>Shape, bounds and transform\<close>

lemma py_min_Min: "py_min xs = Inr m \<Longrightarrow> xs \<noteq> [] \<and> m = Min (set xs)"
  by (cases xs) (auto simp: py_min_def Min.set_eq_fold[symmetric])

lemma py_max_Max: "py_max xs = Inr m \<Longrightarrow> xs \<noteq> [] \<and> m = Max (set xs)"
  by (cases xs) (auto simp: py_max_def Max.set_eq_fold[symmetric])

lemma union_bounds_extrema:
  assumes "union_bounds bs = Inr (west, south, east, north)"
  shows "bs \<noteq> [] \<and>
         west = Min ((\<lambda>(l, b, r, t). l) ` set bs) \<and>
         south = Min ((\<lambda>(l, b, r, t). b) ` set bs) \<and>
         east = Max ((\<lambda>(l, b, r, t). r) ` set bs) \<and>
         north = Max ((\<lambda>(l, b, r, t). t) ` set bs)"
proof -
  from assms have
    1: "py_min (map (\<lambda>(l, b, r, t). l) bs) = Inr west" and
    2: "py_min (map (\<lambda>(l, b, r, t). b) bs) = Inr south" and
    3: "py_max (map (\<lambda>(l, b, r, t). r) bs) = Inr east" and
    4: "py_max (map (\<lambda>(l, b, r, t). t) bs) = Inr north"
    by (auto simp: union_bounds_def split: sum.splits)
  show ?thesis
    using py_min_Min[OF 1] py_min_Min[OF 2] py_max_Max[OF 3] py_max_Max[OF 4] by simp
qed

text \<open>The bounds collected by the second loop, one per file in order: the file's own
  bounds when it is in the target projection, its bounds transformed otherwise.\<close>

lemma collect_bounds_nth:
  assumes "collect_bounds E target ps = Inr bs"
  shows "length bs = length ps \<and>
     (\<forall>i < length ps. \<exists>s. rasterio_open E (ps ! i) = Some s \<and>
        bs ! i = (if src_crs s \<noteq> target
                  then transform_bounds E (src_crs s) target (src_bounds s)
                  else src_bounds s))"
  using assms
proof (induction ps arbitrary: bs)
  case Nil
  then show ?case by simp
next
  case (Cons p ps)
  from Cons.prems obtain s bs' where
    s: "rasterio_open E p = Some s" and
    bs': "collect_bounds E target ps = Inr bs'" and
    bs: "bs = (if src_crs s \<noteq> target
               then transform_bounds E (src_crs s) target (src_bounds s)
               else src_bounds s) # bs'"
    by (auto simp: Let_def split: option.splits sum.splits)
  note IH = Cons.IH[OF bs']
  have "\<exists>s. rasterio_open E ((p # ps) ! i) = Some s \<and>
        bs ! i = (if src_crs s \<noteq> target
                  then transform_bounds E (src_crs s) target (src_bounds s)
                  else src_bounds s)" if "i < length (p # ps)" for i
  proof (cases i)
    case 0
    then show ?thesis using s bs by simp
  next
    case (Suc k)
    then show ?thesis using that IH bs by simp
  qed
  then show ?case using IH bs by simp
qed

text \<open>Width and height are the float quotients, truncated; the transform starts at the
  upper left corner.\<close>

lemma grid_of_shape:
  assumes "grid_of (west, south, east, north) rs = Inr (t, shp)"
  shows "fst rs \<noteq> 0 \<and> snd rs \<noteq> 0 \<and>
         (\<exists>dw qw dh qh.
            float_sub east west = Some dw \<and> to_double (dw / fst rs) = Some qw \<and>
            float_sub north south = Some dh \<and> to_double (dh / snd rs) = Some qh \<and>
            shp = (trunc_zero qw, trunc_zero qh)) \<and>
         t = (fst rs, 0, west, 0, - snd rs, north)"
  using assms
  by (auto simp: grid_of_def truediv_def py_int_def Let_def from_origin_def
      split: if_splits option.splits sum.splits)

lemma resolve_Inr:
  assumes "resolve E ps = Inr (target, t, shp, b, rs)"
  shows "\<exists>cs bs p0 rest s.
     collect_crs E ps = Inr cs \<and> target_crs_of cs = Inr target \<and>
     collect_bounds E target ps = Inr bs \<and> union_bounds bs = Inr b \<and>
     ps = p0 # rest \<and> rasterio_open E p0 = Some s \<and> rs = src_res s \<and>
     grid_of b rs = Inr (t, shp)"
  using assms
  by (auto simp: resolve_def split: sum.splits list.splits option.splits prod.splits)

text \<open>
  C8, as stated: the width of the resolved grid is \<open>round ((east - west) / x_res)\<close>. It
  fails for two rasters of 10 by 10 pixels at resolution 1, one covering \<open>(0, 0, 10, 10)\<close>
  and one shifted by 0.75: the union is 10.75 wide and high, the float quotient is 10.75,
  the shape is \<open>(10, 10)\<close>, and 10.75 rounds to 11.
\<close>

theorem reference_width_not_rounded:
  "fst (getReferenceFromFiles example_env offset_loader) = Inr () \<and>
   map_option bounds (reference (snd (getReferenceFromFiles example_env offset_loader))) =
     Some (0, 0, 43 / 4, 43 / 4) \<and>
   map_option res (reference (snd (getReferenceFromFiles example_env offset_loader))) =
     Some (1, 1) \<and>
   map_option shape (reference (snd (getReferenceFromFiles example_env offset_loader))) =
     Some (10, 10) \<and>
   truediv (float_sub (43 / 4) 0) 1 = Inr (Some (43 / 4)) \<and>
   py_round (43 / 4) = 11"
  by (simp add: resolve_offset float_examples) (simp add: py_round_def)

text \<open>
  C8, amended. When \<^verbatim>\<open>getReferenceFromFiles\<close> completes (which needs a non-empty
  catalog), the new reference has width \<open>int ((east - west) / x_res)\<close> and height
  \<open>int ((north - south) / y_res)\<close>: the difference and the quotient are those of float
  arithmetic, and the quotient is truncated towards zero, not rounded. Its resolution is
  that of the first file, its transform is \<open>(x_res, 0, west, 0, - y_res, north)\<close>, with
  origin \<open>(west, north)\<close>. Its projection is the name of the target projection, the mode of
  the sources' projections, and its bounds are the union (the least west and south, the
  greatest east and north) of the bounds of the sources, each taken as it is when the
  source is in the target projection and transformed into it otherwise.
\<close>

theorem reference_grid_truncated:
  assumes "getReferenceFromFiles E l = (Inr u, l')"
  shows "\<exists>r west south east north cs target bs p0 rest s dw qw dh qh.
     reference l' = Some r \<and> bounds r = (west, south, east, north) \<and>
     values_of (files l) = p0 # rest \<and> rasterio_open E p0 = Some s \<and> res r = src_res s \<and>
     fst (res r) \<noteq> 0 \<and> snd (res r) \<noteq> 0 \<and>
     float_sub east west = Some dw \<and> to_double (dw / fst (res r)) = Some qw \<and>
     float_sub north south = Some dh \<and> to_double (dh / snd (res r)) = Some qh \<and>
     shape r = (trunc_zero qw, trunc_zero qh) \<and>
     transform r = (fst (res r), 0, west, 0, - snd (res r), north) \<and>
     origin (transform r) = (west, north) \<and>
     collect_crs E (values_of (files l)) = Inr cs \<and> target_crs_of cs = Inr target \<and>
     to_string E target = Some (crs r) \<and>
     length bs = length (values_of (files l)) \<and>
     (\<forall>i < length bs. \<exists>si. rasterio_open E (values_of (files l) ! i) = Some si \<and>
        bs ! i = (if src_crs si \<noteq> target
                  then transform_bounds E (src_crs si) target (src_bounds si)
                  else src_bounds si)) \<and>
     west = Min ((\<lambda>(l, b, r, t). l) ` set bs) \<and>
     south = Min ((\<lambda>(l, b, r, t). b) ` set bs) \<and>
     east = Max ((\<lambda>(l, b, r, t). r) ` set bs) \<and>
     north = Max ((\<lambda>(l, b, r, t). t) ` set bs)"
proof -
  from getReferenceFromFiles_Inr[OF assms] obtain target t shp b rs c where
    r: "resolve E (values_of (files l)) = Inr (target, t, shp, b, rs)"
    and c: "to_string E target = Some c"
    and l': "l' = l\<lparr>sig_init := False,
            reference := Some \<lparr>crs = c, transform = t, shape = shp, bounds = b, res = rs\<rparr>\<rparr>"
    by blast
  from resolve_Inr[OF r] obtain cs bs p0 rest s where
    cc: "collect_crs E (values_of (files l)) = Inr cs" and
    tc: "target_crs_of cs = Inr target" and
    cb: "collect_bounds E target (values_of (files l)) = Inr bs" and
    ub: "union_bounds bs = Inr b" and
    ps: "values_of (files l) = p0 # rest" and
    op: "rasterio_open E p0 = Some s" and
    rs: "rs = src_res s" and
    go: "grid_of b rs = Inr (t, shp)"
    by blast
  obtain west south east north where b: "b = (west, south, east, north)"
    by (cases b) auto
  from grid_of_shape[OF go[unfolded b]] obtain dw qw dh qh where
    g: "fst rs \<noteq> 0" "snd rs \<noteq> 0"
       "float_sub east west = Some dw" "to_double (dw / fst rs) = Some qw"
       "float_sub north south = Some dh" "to_double (dh / snd rs) = Some qh"
       "shp = (trunc_zero qw, trunc_zero qh)"
       "t = (fst rs, 0, west, 0, - snd rs, north)"
    by blast
  note x = union_bounds_extrema[OF ub[unfolded b]]
  note n = collect_bounds_nth[OF cb]
  let ?r = "\<lparr>crs = c, transform = t, shape = shp, bounds = b, res = rs\<rparr>"
  have 1: "reference l' = Some ?r" using l' by simp
  have 2: "bounds ?r = (west, south, east, north)" "res ?r = src_res s" "crs ?r = c"
    using b rs by simp_all
  have 3: "fst (res ?r) \<noteq> 0" "snd (res ?r) \<noteq> 0"
    "to_double (dw / fst (res ?r)) = Some qw" "to_double (dh / snd (res ?r)) = Some qh"
    "shape ?r = (trunc_zero qw, trunc_zero qh)"
    "transform ?r = (fst (res ?r), 0, west, 0, - snd (res ?r), north)"
    using g by simp_all
  have 4: "origin (transform ?r) = (west, north)"
    using g(8) by (simp add: origin_def)
  have 5: "to_string E target = Some (crs ?r)" using c by simp
  have 6: "length bs = length (values_of (files l))"
    "\<forall>i < length bs. \<exists>si. rasterio_open E (values_of (files l) ! i) = Some si \<and>
        bs ! i = (if src_crs si \<noteq> target
                  then transform_bounds E (src_crs si) target (src_bounds si)
                  else src_bounds si)"
    using n by simp_all
  show ?thesis
    using 1 2(1,2) ps op 3(1,2) g(3) 3(3) g(5) 3(4,5,6) 4 cc tc 5 6 x
    by blast
qed

text \<open>The two shifted rasters: the union is \<open>(0, 0, 10.75, 10.75)\<close>, the shape is the
  truncation \<open>(10, 10)\<close> of the quotients 10.75, and the origin is \<open>(0, 10.75)\<close>.\<close>

theorem reference_grid_truncated_witness:
  "getReferenceFromFiles example_env offset_loader =
     (Inr (), snd (getReferenceFromFiles example_env offset_loader)) \<and>
   (\<exists>r. reference (snd (getReferenceFromFiles example_env offset_loader)) = Some r \<and>
        bounds r = (0, 0, 43 / 4, 43 / 4) \<and> res r = (1, 1) \<and>
        shape r = (trunc_zero (43 / 4), trunc_zero (43 / 4)) \<and>
        shape r = (10, 10) \<and> origin (transform r) = (0, 43 / 4) \<and> crs r = ''EPSG:4326'')"
proof -
  have g: "getReferenceFromFiles example_env offset_loader =
     (Inr (), snd (getReferenceFromFiles example_env offset_loader))"
    by (simp add: resolve_offset)
  from reference_grid_truncated[OF g] obtain r west south east north dw qw dh qh where
    r: "reference (snd (getReferenceFromFiles example_env offset_loader)) = Some r"
       "bounds r = (west, south, east, north)"
       "float_sub east west = Some dw" "to_double (dw / fst (res r)) = Some qw"
       "float_sub north south = Some dh" "to_double (dh / snd (res r)) = Some qh"
       "shape r = (trunc_zero qw, trunc_zero qh)"
       "origin (transform r) = (west, north)"
    by blast
  have b: "bounds r = (0, 0, 43 / 4, 43 / 4)" "res r = (1, 1)" "crs r = ''EPSG:4326''"
    using r(1) by (auto simp: resolve_offset)
  then have c: "west = 0" "south = 0" "east = 43 / 4" "north = 43 / 4" using r(2) by simp_all
  have "float_sub (43 / 4) 0 = Some dw" "float_sub (43 / 4) 0 = Some dh"
    using r(3,5) by (simp_all only: c)
  then have d: "dw = 43 / 4" "dh = 43 / 4" by (simp_all add: float_examples)
  have "to_double (43 / 4 / 1) = Some qw" "to_double (43 / 4 / 1) = Some qh"
    using r(4,6) by (simp_all only: d b(2) fst_conv snd_conv)
  then have q: "qw = 43 / 4" "qh = 43 / 4" by (simp_all add: to_double_ten_three_quarters)
  have s: "shape r = (trunc_zero (43 / 4), trunc_zero (43 / 4))"
    using r(7) by (simp only: q)
  have o: "origin (transform r) = (0, 43 / 4)"
    using r(8) by (simp only: c)
  have "shape r = (10, 10)" using s by (simp add: trunc_zero_def)
  then show ?thesis using g r(1) b s o by simp
qed

section \<open>Reading leaves the loader unchanged\<close>

lemma getBlock_loader: "snd (getBlock E l index) = l"
  by (simp add: getBlock_def)

lemma iter_loop_loader: "snd (iter_loop E bs l) = l"
proof (induction bs)
  case Nil
  show ?case by simp
next
  case (Cons b bs)
  obtain res l' where g: "getBlock E l b = (res, l')" by (cases "getBlock E l b")
  then have l': "l' = l" using getBlock_loader[of E l b] by simp
  show ?case
  proof (cases res)
    case (Inl e)
    then show ?thesis using g l' by simp
  next
    case (Inr a)
    obtain as err l'' where i: "iter_loop E bs l = ((as, err), l'')"
      by (cases "iter_loop E bs l") auto
    then have "l'' = l" using Cons.IH by simp
    then show ?thesis using g l' Inr i by simp
  qed
qed

text \<open>
  C9. \<^verbatim>\<open>getBlock\<close> and the iteration return the loader they were given, every field
  unchanged, and therefore iterating a second time yields the same sequence of stacks (and
  ends the same way) as the first, and reading a tile a second time returns the same stack.
\<close>

theorem reads_leave_loader:
  "snd (getBlock E l index) = l \<and>
   snd (iter E l) = l \<and>
   iter E (snd (iter E l)) = iter E l \<and>
   getBlock E (snd (getBlock E l index)) index = getBlock E l index"
  by (simp add: getBlock_loader iter_def iter_loop_loader)

theorem reads_leave_loader_witness:
  "sig_init ready_loader \<and>
   snd (iter example_env ready_loader) = ready_loader \<and>
   iter example_env (snd (iter example_env ready_loader)) = iter example_env ready_loader \<and>
   snd (getBlock example_env ready_loader (0, 0)) = ready_loader \<and>
   fst (getBlock example_env ready_loader (0, 0)) =
     Inr [(''/tmp/20200102.tif.vrt'', Window 0 0 4 4),
          (''/tmp/20200101.tif.vrt'', Window 0 0 4 4)]"
  using reads_leave_loader[of example_env ready_loader "(0, 0)"]
  by (simp add: getBlock_ready) (simp add: ready_loader_eq)

section \<open>The unused parameter of \<^verbatim>\<open>addFilesFromPath\<close>\<close>

text \<open>
  C10. Two runs of \<^verbatim>\<open>addFilesFromPath\<close> that differ only in the \<^verbatim>\<open>_slice\<close> argument
  return the same result and the same loader.
\<close>

theorem slice_ignored:
  "addFilesFromPath E p s1 fmt l = addFilesFromPath E p s2 fmt l"
  by (simp add: addFilesFromPath_def)

end
